theory Spec2Isabelle
  imports Main "HOL-Library.Word" "HOL-Library.Sublist"
begin

section \<open>Python values used by homedns/handlers.py\<close>

type_synonym byte = "8 word"
type_synonym bytes = "byte list"

text \<open>
  The exceptions that can travel through the handlers. All of them are subclasses of
  Python's \<open>Exception\<close>, so the \<open>except Exception\<close> of \<open>handle\<close> catches each one.
  \<open>SocketTimeout\<close> is \<open>socket.timeout\<close>, a subclass of \<open>OSError\<close>; \<open>UnpackError\<close> is the
  \<open>ValueError\<close>/\<open>TypeError\<close> of a failed tuple unpacking in a \<open>for a, b in xs\<close> loop;
  \<open>OtherError\<close> stands for whatever else a collaborator raises.
\<close>

datatype exn =
    NotImplementedError
  | StructError
  | PyException string
  | UnpackError
  | OSError string
  | SocketTimeout
  | OtherError string

fun is_OSError :: "exn \<Rightarrow> bool" where
  "is_OSError (OSError m) = True"
| "is_OSError SocketTimeout = True"
| "is_OSError e = False"

subsection \<open>bytes.strip()\<close>

text \<open>
  \<open>bytes.strip()\<close> without argument removes ASCII whitespace (space, tab, line feed,
  carriage return, vertical tab, form feed) from both ends.
\<close>

definition is_space :: "byte \<Rightarrow> bool" where
  "is_space b = (b = 0x20 \<or> b = 0x09 \<or> b = 0x0A \<or> b = 0x0D \<or> b = 0x0B \<or> b = 0x0C)"

definition bytes_strip :: "bytes \<Rightarrow> bytes" where
  "bytes_strip bs = rev (dropWhile is_space (rev (dropWhile is_space bs)))"

subsection \<open>struct.pack(">H", n) and struct.unpack(">H", b)[0]\<close>

definition struct_pack_H :: "nat \<Rightarrow> exn + bytes" where
  "struct_pack_H n =
     (if n \<le> 65535 then Inr [word_of_nat (n div 256), word_of_nat (n mod 256)]
      else Inl StructError)"

text \<open>The unsigned 16-bit number two bytes spell, high byte first.\<close>

definition be16 :: "byte \<Rightarrow> byte \<Rightarrow> nat" where
  "be16 hi lo = 256 * unat hi + unat lo"

fun struct_unpack_H :: "bytes \<Rightarrow> exn + nat" where
  "struct_unpack_H [hi, lo] = Inr (be16 hi lo)"
| "struct_unpack_H b = Inl StructError"

subsection \<open>str.lower()\<close>

definition lower_char :: "char \<Rightarrow> char" where
  "lower_char c =
     (let n = (of_char c :: nat) in if 65 \<le> n \<and> n \<le> 90 then char_of (n + 32) else c)"

definition lower :: "string \<Rightarrow> string" where
  "lower s = map lower_char s"

section \<open>The world a dispatch cycle runs in\<close>

text \<open>
  An entry of \<open>dns_config.client_denylist\<close>. The loop \<open>for ip, type in client_denylist\<close>
  unpacks every entry into two values; \<open>NotAPair\<close> is an entry that does not unpack so.
\<close>

datatype deny_entry = Rule string string | NotAPair

record dns_config =
  db_path :: string
  client_denylist :: "deny_entry list"
  roots :: "(string \<times> int option) list"

text \<open>
  What one socket opened by the forwarder does: the outcome of \<open>sock.connect\<close>, of
  \<open>sock.sendall\<close>/\<open>sock.sendto\<close> (\<open>None\<close> is a normal return) and of \<open>sock.recv(n)\<close>.
\<close>

record upstream =
  connect_result :: "exn option"
  send_result :: "exn option"
  recv_result :: "nat \<Rightarrow> exn + bytes"

text \<open>
  Everything \<open>handle\<close> reads from outside: the clock, the requester's address, the
  configuration, the collaborator \<open>dns_response\<close> of \<open>homedns.lib\<close> (not part of this
  file, taken as a parameter), the requester's socket and the upstream sockets, the
  \<open>k\<close>-th of which is the socket opened for the \<open>k\<close>-th entry of \<open>roots\<close>.
\<close>

record env =
  now :: string
  client_address :: "string \<times> int"
  config :: dns_config
  dns_response :: "bytes \<Rightarrow> string \<Rightarrow> string \<Rightarrow> string list \<Rightarrow> exn + (int \<times> bytes option)"
  conn_recv :: "nat \<Rightarrow> exn + bytes"
  datagram :: bytes
  client_send :: "bytes \<Rightarrow> exn option"
  upstream :: "nat \<Rightarrow> upstream"

subsection \<open>Observable effects\<close>

datatype level = DEBUG | INFO | ERROR

datatype sock_kind = SOCK_STREAM | SOCK_DGRAM

datatype logmsg =
    Request string string string int
  | IpCompare string string
  | DenyList "string list"
  | RetCode int
  | Text string
  | ForwardTo string int
  | ExnMsg exn
  | Reply bytes

text \<open>
  \<open>ClientSend b\<close> is a call that sends \<open>b\<close> to the requester: \<open>self.request.sendall(b)\<close>
  for TCP, \<open>self.request[1].sendto(b, self.client_address)\<close> for UDP. The other socket
  events are calls on a socket the forwarder opened. An event records that the call was
  made; whether it returned or raised is the environment's answer. Creating a socket and
  writing a log line are taken not to raise.
\<close>

text \<open>
  Modelled from the spec: \<open>set_iterative_timeout\<close> comes from \<open>homedns.utils\<close>, which
  is not among the sources. The spec has it apply a bounded connect/receive timeout to
  the socket. Here the call is the event \<open>SetTimeout\<close>, and a call that runs into the
  timeout has the outcome \<open>SocketTimeout\<close>.
\<close>

datatype event =
    Log level logmsg
  | PrintExc exn
  | ClientSend bytes
  | SocketOpen sock_kind
  | SetTimeout
  | Connect string int
  | SockClose
  | SockSendall bytes
  | SockSendto bytes string int
  | SockRecv nat

fun client_sends :: "event list \<Rightarrow> bytes list" where
  "client_sends [] = []"
| "client_sends (ClientSend b # tr) = b # client_sends tr"
| "client_sends (ev # tr) = client_sends tr"

fun attempted :: "event list \<Rightarrow> (string \<times> int) list" where
  "attempted [] = []"
| "attempted (Log INFO (ForwardTo ip port) # tr) = (ip, port) # attempted tr"
| "attempted (ev # tr) = attempted tr"

fun sockets_opened :: "event list \<Rightarrow> nat" where
  "sockets_opened [] = 0"
| "sockets_opened (SocketOpen k # tr) = Suc (sockets_opened tr)"
| "sockets_opened (ev # tr) = sockets_opened tr"

fun printed_exc :: "event list \<Rightarrow> exn list" where
  "printed_exc [] = []"
| "printed_exc (PrintExc e # tr) = e # printed_exc tr"
| "printed_exc (ev # tr) = printed_exc tr"

section \<open>BaseRequestHandler.get_denied_types\<close>

fun denied_loop :: "string \<Rightarrow> deny_entry list \<Rightarrow> string list \<Rightarrow> (exn + string list) \<times> event list" where
  "denied_loop search_ip [] ret = (Inr ret, [])"
| "denied_loop search_ip (NotAPair # rest) ret = (Inl UnpackError, [])"
| "denied_loop search_ip (Rule ip ty # rest) ret =
     (let (r, tr) = denied_loop search_ip rest (if ip = search_ip then ret @ [ty] else ret)
      in (r, Log DEBUG (IpCompare ip search_ip) # tr))"

definition get_denied_types :: "env \<Rightarrow> string \<Rightarrow> (exn + string list) \<times> event list" where
  "get_denied_types env search_ip = denied_loop search_ip (client_denylist (config env)) []"

section \<open>The three handler classes\<close>

datatype handler = Base | TCP | UDP

fun class_name :: "handler \<Rightarrow> string" where
  "class_name Base = ''BaseRequestHandler''"
| "class_name TCP = ''TCPRequestHandler''"
| "class_name UDP = ''UDPRequestHandler''"

subsection \<open>get_data\<close>

definition tcp_get_data :: "env \<Rightarrow> exn + bytes" where
  "tcp_get_data env =
     (case conn_recv env 8192 of
        Inl e \<Rightarrow> Inl e
      | Inr raw \<Rightarrow>
          (let data = bytes_strip raw in
           case struct_unpack_H (take 2 data) of
             Inl e \<Rightarrow> Inl e
           | Inr sz \<Rightarrow>
               if int sz < int (length data) - 2 then Inl (PyException ''Wrong size of TCP packet'')
               else if int sz > int (length data) - 2 then Inl (PyException ''Too big TCP packet'')
               else Inr (drop 2 data)))"

definition udp_get_data :: "env \<Rightarrow> exn + bytes" where
  "udp_get_data env = Inr (bytes_strip (datagram env))"

fun get_data :: "handler \<Rightarrow> env \<Rightarrow> exn + bytes" where
  "get_data Base env = Inl NotImplementedError"
| "get_data TCP env = tcp_get_data env"
| "get_data UDP env = udp_get_data env"

subsection \<open>send_data\<close>

definition tcp_send_data :: "env \<Rightarrow> bytes \<Rightarrow> exn option \<times> event list" where
  "tcp_send_data env data =
     (case struct_pack_H (length data) of
        Inl e \<Rightarrow> (Some e, [])
      | Inr sz \<Rightarrow> (client_send env (sz @ data), [ClientSend (sz @ data)]))"

definition udp_send_data :: "env \<Rightarrow> bytes \<Rightarrow> exn option \<times> event list" where
  "udp_send_data env data = (client_send env data, [ClientSend data])"

fun send_data :: "handler \<Rightarrow> env \<Rightarrow> bytes \<Rightarrow> exn option \<times> event list" where
  "send_data Base env data = (Some NotImplementedError, [])"
| "send_data TCP env data = tcp_send_data env data"
| "send_data UDP env data = udp_send_data env data"

subsection \<open>forward_roots\<close>

text \<open>
  The \<open>for ip, port in roots\<close> loops, as recursion on the remaining entries; \<open>k\<close> counts
  the sockets opened so far. The first component of the result is the exception that
  leaves the loop, if any.
\<close>

fun tcp_forward_loop :: "env \<Rightarrow> bytes \<Rightarrow> nat \<Rightarrow> (string \<times> int option) list \<Rightarrow> exn option \<times> event list" where
  "tcp_forward_loop env data k [] = (None, [])"
| "tcp_forward_loop env data k ((ip, port0) # rest) =
     (let port = (case port0 of None \<Rightarrow> 53 | Some p \<Rightarrow> p);
          pre = [SocketOpen SOCK_STREAM, SetTimeout, Log INFO (ForwardTo ip port), Connect ip port];
          sock = upstream env k
      in case connect_result sock of
           Some e \<Rightarrow>
             if is_OSError e then
               (let (r, tr) = tcp_forward_loop env data (Suc k) rest
                in (r, pre @ [Log ERROR (ExnMsg e), SockClose] @ tr))
             else (Some e, pre)
         | None \<Rightarrow>
             (case struct_pack_H (length data) of
                Inl e \<Rightarrow> (Some e, pre)
              | Inr sz \<Rightarrow>
                  (case send_result sock of
                     Some e \<Rightarrow> (Some e, pre @ [SockSendall (sz @ data)])
                   | None \<Rightarrow>
                       (case recv_result sock 8192 of
                          Inl e \<Rightarrow> (Some e, pre @ [SockSendall (sz @ data), SockRecv 8192])
                        | Inr recv \<Rightarrow>
                            (client_send env recv,
                             pre @ [SockSendall (sz @ data), SockRecv 8192,
                                    Log DEBUG (Reply recv), ClientSend recv])))))"

fun udp_forward_loop :: "env \<Rightarrow> bytes \<Rightarrow> nat \<Rightarrow> (string \<times> int option) list \<Rightarrow> exn option \<times> event list" where
  "udp_forward_loop env data k [] = (None, [])"
| "udp_forward_loop env data k ((ip, port0) # rest) =
     (let port = (case port0 of None \<Rightarrow> 53 | Some p \<Rightarrow> p);
          pre = [SocketOpen SOCK_DGRAM, SetTimeout, Log INFO (ForwardTo ip port), SockSendto data ip port];
          sock = upstream env k;
          attempt = (case send_result sock of
                       Some e \<Rightarrow> (Inl e, pre)
                     | None \<Rightarrow> (recv_result sock 8192, pre @ [SockRecv 8192]))
      in case attempt of
           (Inl e, tr0) \<Rightarrow>
             if is_OSError e then
               (let (r, tr) = udp_forward_loop env data (Suc k) rest
                in (r, tr0 @ [Log DEBUG (ExnMsg e)] @ tr))
             else (Some e, tr0)
         | (Inr recv, tr0) \<Rightarrow>
             (client_send env recv, tr0 @ [Log DEBUG (Reply recv), ClientSend recv]))"

definition tcp_forward_roots :: "env \<Rightarrow> bytes \<Rightarrow> exn option \<times> event list" where
  "tcp_forward_roots env data = tcp_forward_loop env data 0 (roots (config env))"

definition udp_forward_roots :: "env \<Rightarrow> bytes \<Rightarrow> exn option \<times> event list" where
  "udp_forward_roots env data = udp_forward_loop env data 0 (roots (config env))"

fun forward_roots :: "handler \<Rightarrow> env \<Rightarrow> bytes \<Rightarrow> exn option \<times> event list" where
  "forward_roots Base env data = (Some NotImplementedError, [])"
| "forward_roots TCP env data = tcp_forward_roots env data"
| "forward_roots UDP env data = udp_forward_roots env data"

section \<open>BaseRequestHandler.handle\<close>

text \<open>The statements of \<open>handle\<close> before its \<open>try\<close>: the request line and the denylist.\<close>

definition request_line :: "handler \<Rightarrow> env \<Rightarrow> event list" where
  "request_line h env =
     [Log INFO (Request (take 3 (class_name h)) (now env)
                  (fst (client_address env)) (snd (client_address env)))]"

text \<open>The body of the \<open>try\<close>: the exception it raises, if any, and its effects.\<close>

definition try_body :: "handler \<Rightarrow> env \<Rightarrow> string list \<Rightarrow> exn option \<times> event list" where
  "try_body h env denylist =
     (case get_data h env of
        Inl e \<Rightarrow> (Some e, [])
      | Inr data \<Rightarrow>
          (case dns_response env data (db_path (config env)) (lower (take 3 (class_name h))) denylist of
             Inl e \<Rightarrow> (Some e, [])
           | Inr (retcode, retdata) \<Rightarrow>
               (let tr0 = [Log DEBUG (RetCode retcode)] in
                if retcode = 0 then
                  (case retdata of
                     None \<Rightarrow> (None, tr0)
                   | Some d \<Rightarrow>
                       (let (r, tr) = send_data h env d
                        in (r, tr0 @ [Log INFO (Text ''Find record in local db'')] @ tr)))
                else if retcode = 1 then
                  (let (r, tr) = forward_roots h env data
                   in (r, tr0 @ [Log INFO (Text ''Need forwarding'')] @ tr))
                else if retcode = 2 then (None, tr0 @ [Log INFO (Text ''blocked.'')])
                else (None, tr0 @ [Log ERROR (Text ''undefined error code '')]))))"

text \<open>
  \<open>handle\<close> returns the exception that leaves it (\<open>None\<close> when it returns normally) and
  the effects of the cycle. An exception of the \<open>try\<close> body is printed by
  \<open>traceback.print_exc\<close> and swallowed; \<open>get_denied_types\<close> runs before the \<open>try\<close>.
\<close>

definition handle :: "handler \<Rightarrow> env \<Rightarrow> exn option \<times> event list" where
  "handle h env =
     (let (r, tr1) = get_denied_types env (fst (client_address env)) in
      case r of
        Inl e \<Rightarrow> (Some e, request_line h env @ tr1)
      | Inr denylist \<Rightarrow>
          (let tr2 = [Log DEBUG (DenyList denylist)];
               (res, tr3) = try_body h env denylist
           in case res of
                None \<Rightarrow> (None, request_line h env @ tr1 @ tr2 @ tr3)
              | Some e \<Rightarrow> (None, request_line h env @ tr1 @ tr2 @ tr3 @ [PrintExc e])))"

section \<open>Vocabulary of the statements\<close>

text \<open>The (host, port) an entry of \<open>roots\<close> is contacted at: \<open>port\<close> defaults to 53.\<close>

definition target :: "string \<times> int option \<Rightarrow> string \<times> int" where
  "target entry = (fst entry, case snd entry of None \<Rightarrow> 53 | Some p \<Rightarrow> p)"

text \<open>
  A socket yields the reply \<open>r\<close> to the query \<open>data\<close> when every call the forwarder makes
  on it returns normally and \<open>recv\<close> returns \<open>r\<close>. For TCP the query must also fit the
  2-byte length prefix, or it is never sent.
\<close>

fun yields_reply :: "handler \<Rightarrow> bytes \<Rightarrow> upstream \<Rightarrow> bytes \<Rightarrow> bool" where
  "yields_reply Base data sock r = False"
| "yields_reply TCP data sock r =
     (connect_result sock = None \<and> length data \<le> 65535 \<and> send_result sock = None
      \<and> recv_result sock 8192 = Inr r)"
| "yields_reply UDP data sock r =
     (send_result sock = None \<and> recv_result sock 8192 = Inr r)"

text \<open>
  A socket fails over when its failure is one the loop's \<open>except OSError\<close> guards: for
  TCP an \<open>OSError\<close> of \<open>connect\<close>, for UDP an \<open>OSError\<close> of \<open>sendto\<close> or of \<open>recv\<close>.
\<close>

fun fails_over :: "handler \<Rightarrow> upstream \<Rightarrow> bool" where
  "fails_over Base sock = False"
| "fails_over TCP sock = (case connect_result sock of Some e \<Rightarrow> is_OSError e | None \<Rightarrow> False)"
| "fails_over UDP sock =
     (case send_result sock of
        Some e \<Rightarrow> is_OSError e
      | None \<Rightarrow> (case recv_result sock 8192 of Inl e \<Rightarrow> is_OSError e | Inr r \<Rightarrow> False))"

text \<open>An environment in which nothing fails and nothing is configured, to build examples from.\<close>

definition quiet_env :: env where
  "quiet_env =
     \<lparr> now = ''2024-01-01 00:00:00.000000'',
       client_address = (''198.51.100.7'', 40000),
       config = \<lparr> db_path = ''dns.db'', client_denylist = [], roots = [] \<rparr>,
       dns_response = (\<lambda>q db tag denied. Inr (2, None)),
       conn_recv = (\<lambda>n. Inr []),
       datagram = [],
       client_send = (\<lambda>b. None),
       upstream = (\<lambda>k. \<lparr> connect_result = None, send_result = None, recv_result = (\<lambda>n. Inr []) \<rparr>) \<rparr>"

text \<open>
  What a run of a forwarding loop over the entries \<open>rs\<close>, the first on socket \<open>k\<close>, leaves
  in its trace \<open>tr\<close>: the targets tried are a prefix of \<open>rs\<close> in order, each on a socket of
  its own; a tried target that yields a reply is the last one tried and its reply is the
  only thing sent to the requester; when no target yields a reply nothing is sent.
\<close>

definition first_reply_only :: "handler \<Rightarrow> env \<Rightarrow> bytes \<Rightarrow> nat \<Rightarrow> (string \<times> int option) list \<Rightarrow> event list \<Rightarrow> bool" where
  "first_reply_only h env data k rs tr =
     (prefix (attempted tr) (map target rs)
      \<and> sockets_opened tr = length (attempted tr)
      \<and> (\<forall>j<length (attempted tr). \<forall>r. yields_reply h data (upstream env (k + j)) r \<longrightarrow>
            Suc j = length (attempted tr) \<and> client_sends tr = [r])
      \<and> ((\<forall>j<length rs. \<forall>r. \<not> yields_reply h data (upstream env (k + j)) r) \<longrightarrow>
            client_sends tr = []))"

text \<open>
  Two example configurations. In \<open>failover_env\<close> the first of three upstreams refuses the
  TCP connection and lets a UDP read time out, the others answer. In \<open>timeout_env\<close> the
  first of two upstreams accepts the connection and the query, then lets the read time out.
\<close>

definition failover_env :: env where
  "failover_env =
     quiet_env\<lparr>
       config := \<lparr> db_path = ''dns.db'', client_denylist = [],
                   roots = [(''192.0.2.1'', None), (''192.0.2.2'', Some 5353), (''192.0.2.3'', None)] \<rparr>,
       upstream := (\<lambda>k. if k = 0
                         then \<lparr> connect_result = Some (OSError ''Connection refused''),
                                send_result = None, recv_result = (\<lambda>n. Inl SocketTimeout) \<rparr>
                         else \<lparr> connect_result = None, send_result = None,
                                recv_result = (\<lambda>n. Inr [0xAB]) \<rparr>) \<rparr>"

definition timeout_env :: env where
  "timeout_env =
     quiet_env\<lparr>
       config := \<lparr> db_path = ''dns.db'', client_denylist = [],
                   roots = [(''192.0.2.1'', None), (''192.0.2.2'', None)] \<rparr>,
       upstream := (\<lambda>k. if k = 0
                         then \<lparr> connect_result = None, send_result = None,
                                recv_result = (\<lambda>n. Inl SocketTimeout) \<rparr>
                         else \<lparr> connect_result = None, send_result = None,
                                recv_result = (\<lambda>n. Inr [0xAB]) \<rparr>) \<rparr>"

text \<open>
  The bytes \<open>send_data\<close> hands to the requester's socket for the answer \<open>d\<close>: behind a
  2-byte big-endian length for TCP, as they are for UDP.
\<close>

fun on_wire :: "handler \<Rightarrow> bytes \<Rightarrow> bytes" where
  "on_wire TCP d = [word_of_nat (length d div 256), word_of_nat (length d mod 256)] @ d"
| "on_wire UDP d = d"
| "on_wire Base d = d"

text \<open>
  \<open>lookup_env env code ret\<close> is \<open>env\<close> with a requester whose query is the single byte 7
  (framed for TCP, bare for UDP) and a local lookup that returns \<open>(code, ret)\<close>.
\<close>

definition lookup_env :: "env \<Rightarrow> int \<Rightarrow> bytes option \<Rightarrow> env" where
  "lookup_env env code ret =
     env\<lparr> dns_response := (\<lambda>q db tag denied. Inr (code, ret)),
          conn_recv := (\<lambda>n. Inr [0, 1, 7]),
          datagram := [7] \<rparr>"

section \<open>Facts about the projections\<close>

lemma client_sends_append [simp]: "client_sends (xs @ ys) = client_sends xs @ client_sends ys"
  by (induction xs rule: client_sends.induct) simp_all

lemma attempted_append [simp]: "attempted (xs @ ys) = attempted xs @ attempted ys"
  by (induction xs rule: attempted.induct) simp_all

lemma sockets_opened_append [simp]: "sockets_opened (xs @ ys) = sockets_opened xs + sockets_opened ys"
  by (induction xs rule: sockets_opened.induct) simp_all

lemma printed_exc_append [simp]: "printed_exc (xs @ ys) = printed_exc xs @ printed_exc ys"
  by (induction xs rule: printed_exc.induct) simp_all

section \<open>Facts about stripping and the length prefix\<close>

lemma length_bytes_strip_le: "length (bytes_strip bs) \<le> length bs"
  unfolding bytes_strip_def
  by (metis length_dropWhile_le length_rev le_trans)

lemma dropWhile_same_length: "length (dropWhile P xs) = length xs \<Longrightarrow> dropWhile P xs = xs"
  by (metis append_self_conv2 length_0_conv length_append add_cancel_right_left takeWhile_dropWhile_id add.commute)

lemma bytes_strip_id_iff:
  "bytes_strip bs = bs \<longleftrightarrow> bs = [] \<or> (\<not> is_space (hd bs) \<and> \<not> is_space (last bs))"
proof
  assume eq: "bytes_strip bs = bs"
  have "length (dropWhile is_space (rev (dropWhile is_space bs))) = length bs"
    using eq unfolding bytes_strip_def by (metis length_rev)
  moreover have "length (dropWhile is_space (rev (dropWhile is_space bs))) \<le> length (dropWhile is_space bs)"
    by (metis length_dropWhile_le length_rev)
  moreover have "length (dropWhile is_space bs) \<le> length bs"
    by (rule length_dropWhile_le)
  ultimately have "length (dropWhile is_space bs) = length bs" by linarith
  then have d1: "dropWhile is_space bs = bs" by (rule dropWhile_same_length)
  with eq have "dropWhile is_space (rev bs) = rev bs"
    unfolding bytes_strip_def by (metis rev_rev_ident)
  with d1 show "bs = [] \<or> (\<not> is_space (hd bs) \<and> \<not> is_space (last bs))"
    by (auto simp: dropWhile_eq_self_iff hd_rev)
next
  assume "bs = [] \<or> (\<not> is_space (hd bs) \<and> \<not> is_space (last bs))"
  then show "bytes_strip bs = bs"
  proof
    assume "bs = []"
    then show ?thesis by (simp add: bytes_strip_def)
  next
    assume ns: "\<not> is_space (hd bs) \<and> \<not> is_space (last bs)"
    then have d1: "dropWhile is_space bs = bs" by (simp add: dropWhile_eq_self_iff)
    have "dropWhile is_space (rev bs) = rev bs"
      using ns by (cases "bs = []") (simp_all add: dropWhile_eq_self_iff hd_rev)
    with d1 show ?thesis by (simp add: bytes_strip_def)
  qed
qed

lemma bytes_strip_same_length:
  assumes "length (bytes_strip bs) = length bs"
  shows "bytes_strip bs = bs"
proof -
  have "length (dropWhile is_space (rev (dropWhile is_space bs))) = length bs"
    using assms unfolding bytes_strip_def by simp
  moreover have "length (dropWhile is_space (rev (dropWhile is_space bs))) \<le> length (dropWhile is_space bs)"
    by (metis length_dropWhile_le length_rev)
  moreover have "length (dropWhile is_space bs) \<le> length bs"
    by (rule length_dropWhile_le)
  ultimately have "length (dropWhile is_space bs) = length bs" by linarith
  then have d1: "dropWhile is_space bs = bs" by (rule dropWhile_same_length)
  have "length (dropWhile is_space (rev bs)) = length (rev bs)"
    using assms d1 unfolding bytes_strip_def by simp
  then have "dropWhile is_space (rev bs) = rev bs" by (rule dropWhile_same_length)
  with d1 show ?thesis by (simp add: bytes_strip_def)
qed

lemma struct_unpack_H_short: "length b < 2 \<Longrightarrow> struct_unpack_H b = Inl StructError"
  by (cases b rule: struct_unpack_H.cases) simp_all

lemma struct_pack_H_Inr:
  "struct_pack_H n = Inr sz \<longleftrightarrow> n \<le> 65535 \<and> sz = [word_of_nat (n div 256), word_of_nat (n mod 256)]"
  by (auto simp: struct_pack_H_def)

lemma be16_pack:
  assumes "n \<le> 65535"
  shows "be16 (word_of_nat (n div 256)) (word_of_nat (n mod 256)) = n"
proof -
  have "n div 256 < 256" using assms by simp
  then have "unat (word_of_nat (n div 256) :: byte) = n div 256"
    by (simp add: unat_of_nat)
  moreover have "unat (word_of_nat (n mod 256) :: byte) = n mod 256"
    by (simp add: unat_of_nat)
  ultimately show ?thesis by (simp add: be16_def)
qed

lemma size_check_arith:
  "(int sz < int (length (a # b # xs)) - 2) = (sz < length xs)"
  "(int (length (a # b # xs)) - 2 < int sz) = (length xs < sz)"
  by auto

section \<open>TCP framing\<close>

text \<open>
  C9. A TCP read whose contents, after stripping, are shorter than 2 bytes (an empty read
  included) never decodes: \<open>struct.unpack\<close> of the length prefix raises \<open>struct.error\<close>,
  which is neither of the two size-mismatch exceptions.
\<close>

theorem tcp_get_data_short_read:
  assumes "conn_recv env 8192 = Inr raw" and "length (bytes_strip raw) < 2"
  shows "tcp_get_data env = Inl StructError
         \<and> StructError \<noteq> PyException ''Wrong size of TCP packet''
         \<and> StructError \<noteq> PyException ''Too big TCP packet''"
  using assms by (simp add: tcp_get_data_def struct_unpack_H_short)

theorem tcp_get_data_short_read_witness:
  "tcp_get_data (quiet_env\<lparr>conn_recv := \<lambda>n. Inr [0x0A, 0x07, 0x20]\<rparr>) = Inl StructError
   \<and> tcp_get_data (quiet_env\<lparr>conn_recv := \<lambda>n. Inr []\<rparr>) = Inl StructError"
  using tcp_get_data_short_read [of "quiet_env\<lparr>conn_recv := \<lambda>n. Inr [0x0A, 0x07, 0x20]\<rparr>" "[0x0A, 0x07, 0x20]"]
        tcp_get_data_short_read [of "quiet_env\<lparr>conn_recv := \<lambda>n. Inr []\<rparr>" "[]"]
  by (simp add: bytes_strip_def is_space_def)

text \<open>
  C3, as the code has it. \<open>get_data\<close> works on the received bytes after ASCII whitespace
  has been stripped from both ends. When the stripped data is \<open>hi # lo # payload\<close>, the
  decode succeeds exactly when the big-endian number \<open>be16 hi lo\<close> equals the length of
  \<open>payload\<close>, and then returns \<open>payload\<close>; when \<open>payload\<close> is shorter than the declared
  length it raises \<open>Exception("Too big TCP packet")\<close>, when longer
  \<open>Exception("Wrong size of TCP packet")\<close>. The leading end matters: the received bytes
  20 00 01 41 declare 8192 bytes, carry 2 and end in no whitespace, and they decode to 41,
  because the leading 20 is stripped and 00 01 becomes the prefix.
\<close>

theorem tcp_get_data_size_check:
  assumes "conn_recv env 8192 = Inr raw" and "bytes_strip raw = hi # lo # payload"
  shows "(tcp_get_data env = Inr p \<longleftrightarrow> be16 hi lo = length payload \<and> p = payload)
         \<and> (length payload < be16 hi lo \<longrightarrow>
              tcp_get_data env = Inl (PyException ''Too big TCP packet''))
         \<and> (be16 hi lo < length payload \<longrightarrow>
              tcp_get_data env = Inl (PyException ''Wrong size of TCP packet''))"
  using assms by (auto simp: tcp_get_data_def Let_def size_check_arith simp del: length_Cons)

theorem tcp_get_data_size_check_counterexample:
  "be16 0x20 0 = 8192
   \<and> length [1 :: byte, 0x41] = 2
   \<and> rev (dropWhile is_space (rev [0x20, 0, 1, 0x41])) = [0x20, 0, 1, 0x41]
   \<and> tcp_get_data (quiet_env\<lparr>conn_recv := \<lambda>n. Inr [0x20, 0, 1, 0x41]\<rparr>) = Inr [0x41]"
  by (simp add: tcp_get_data_def bytes_strip_def is_space_def be16_def)

theorem tcp_get_data_size_check_witness:
  "tcp_get_data (quiet_env\<lparr>conn_recv := \<lambda>n. Inr [0x20, 0, 2, 0x41, 0x42, 0x0A]\<rparr>) = Inr [0x41, 0x42]
   \<and> tcp_get_data (quiet_env\<lparr>conn_recv := \<lambda>n. Inr [0, 3, 0x41, 0x42]\<rparr>) = Inl (PyException ''Too big TCP packet'')
   \<and> tcp_get_data (quiet_env\<lparr>conn_recv := \<lambda>n. Inr [0, 1, 0x41, 0x42]\<rparr>) = Inl (PyException ''Wrong size of TCP packet'')"
  using tcp_get_data_size_check [of "quiet_env\<lparr>conn_recv := \<lambda>n. Inr [0x20, 0, 2, 0x41, 0x42, 0x0A]\<rparr>"
          "[0x20, 0, 2, 0x41, 0x42, 0x0A]" 0 2 "[0x41, 0x42]" "[0x41, 0x42]"]
        tcp_get_data_size_check [of "quiet_env\<lparr>conn_recv := \<lambda>n. Inr [0, 3, 0x41, 0x42]\<rparr>"
          "[0, 3, 0x41, 0x42]" 0 3 "[0x41, 0x42]" "[]"]
        tcp_get_data_size_check [of "quiet_env\<lparr>conn_recv := \<lambda>n. Inr [0, 1, 0x41, 0x42]\<rparr>"
          "[0, 1, 0x41, 0x42]" 0 1 "[0x41, 0x42]" "[]"]
  by (simp add: bytes_strip_def is_space_def be16_def)

text \<open>
  C2, as the code has it. \<open>send_data\<close> puts the frame \<open>f\<close> on the wire only for a query of
  at most 65535 bytes; \<open>f\<close> is the query behind its 2-byte big-endian length. Reading
  \<open>f\<close> back with \<open>recv(8192)\<close>, \<open>get_data\<close> returns the query exactly when the query has
  at most 8190 bytes and the frame neither begins nor ends with an ASCII whitespace
  byte, which \<open>strip()\<close> would remove.
\<close>

theorem tcp_frame_roundtrip:
  assumes sent: "tcp_send_data env q = (r, [ClientSend f])"
  shows "f = [word_of_nat (length q div 256), word_of_nat (length q mod 256)] @ q
         \<and> struct_unpack_H (take 2 f) = Inr (length q)
         \<and> (tcp_get_data (env\<lparr>conn_recv := \<lambda>n. Inr (take n f)\<rparr>) = Inr q
              \<longleftrightarrow> length q \<le> 8190 \<and> \<not> is_space (hd f) \<and> \<not> is_space (last f))"
proof -
  from sent have len: "length q \<le> 65535"
    and f: "f = [word_of_nat (length q div 256), word_of_nat (length q mod 256)] @ q"
    by (auto simp: tcp_send_data_def struct_pack_H_def split: if_splits)
  have up: "struct_unpack_H (take 2 f) = Inr (length q)"
    using len by (simp add: f be16_pack)
  have lf: "length f = length q + 2" by (simp add: f)
  let ?env = "env\<lparr>conn_recv := \<lambda>n. Inr (take n f)\<rparr>"
  have "tcp_get_data ?env = Inr q \<longleftrightarrow> length q \<le> 8190 \<and> \<not> is_space (hd f) \<and> \<not> is_space (last f)"
  proof
    assume ok: "length q \<le> 8190 \<and> \<not> is_space (hd f) \<and> \<not> is_space (last f)"
    then have t: "take 8192 f = f" using lf by simp
    have s: "bytes_strip f = f" using ok by (simp add: bytes_strip_id_iff)
    show "tcp_get_data ?env = Inr q"
      using up lf by (simp add: tcp_get_data_def t s) (simp add: f)
  next
    assume dec: "tcp_get_data ?env = Inr q"
    let ?data = "bytes_strip (take 8192 f)"
    from dec have d: "drop 2 ?data = q" and l2: "\<not> length ?data < 2"
      by (auto simp: tcp_get_data_def Let_def struct_unpack_H_short split: sum.splits if_splits)
    from d have "length ?data - 2 = length q" by (metis length_drop)
    with l2 have ld: "length ?data = length f" using lf by linarith
    have le1: "length ?data \<le> length (take 8192 f)" by (rule length_bytes_strip_le)
    have le2: "length (take 8192 f) \<le> length f" by simp
    from ld le1 le2 have lt: "length (take 8192 f) = length f" by linarith
    then have t: "take 8192 f = f" by (metis take_all_iff le_refl length_take min.absorb_iff1 min.commute)
    from ld t have "bytes_strip f = f" by (simp add: bytes_strip_same_length)
    moreover have "f \<noteq> []" by (simp add: f)
    ultimately have ns: "\<not> is_space (hd f) \<and> \<not> is_space (last f)"
      by (simp add: bytes_strip_id_iff)
    from lt have "length f \<le> 8192" by simp
    with lf ns show "length q \<le> 8190 \<and> \<not> is_space (hd f) \<and> \<not> is_space (last f)" by simp
  qed
  with f up show ?thesis by simp
qed

theorem tcp_frame_roundtrip_counterexample:
  "tcp_send_data quiet_env [0x20] = (None, [ClientSend [0, 1, 0x20]])
   \<and> tcp_get_data (quiet_env\<lparr>conn_recv := \<lambda>n. Inr (take n [0, 1, 0x20])\<rparr>)
       = Inl (PyException ''Too big TCP packet'')"
  by (simp add: tcp_send_data_def struct_pack_H_def quiet_env_def tcp_get_data_def bytes_strip_def is_space_def be16_def)

theorem tcp_frame_roundtrip_witness:
  "tcp_send_data quiet_env [0x41, 0x42] = (None, [ClientSend [0, 2, 0x41, 0x42]])
   \<and> tcp_get_data (quiet_env\<lparr>conn_recv := \<lambda>n. Inr (take n [0, 2, 0x41, 0x42])\<rparr>) = Inr [0x41, 0x42]"
proof -
  have s: "tcp_send_data quiet_env [0x41, 0x42] = (None, [ClientSend [0, 2, 0x41, 0x42]])"
    by (simp add: tcp_send_data_def struct_pack_H_def quiet_env_def)
  from tcp_frame_roundtrip [OF s] show ?thesis
    using s by (simp add: is_space_def)
qed

section \<open>The forwarding loops\<close>

lemma yields_reply_unique:
  "yields_reply h data sock r \<Longrightarrow> yields_reply h data sock r' \<Longrightarrow> r' = r"
  by (cases h) simp_all

lemma first_reply_only_abort:
  assumes "\<forall>r. \<not> yields_reply h data (upstream env k) r"
    and "attempted tr = [target entry]" and "sockets_opened tr = 1" and "client_sends tr = []"
  shows "first_reply_only h env data k (entry # rest) tr"
  using assms by (simp add: first_reply_only_def)

lemma first_reply_only_continue:
  assumes ih: "first_reply_only h env data (Suc k) rest tr'"
    and no: "\<forall>r. \<not> yields_reply h data (upstream env k) r"
    and att: "attempted pre = [target entry]"
    and opn: "sockets_opened pre = 1"
    and snt: "client_sends pre = []"
  shows "first_reply_only h env data k (entry # rest) (pre @ tr')"
proof -
  let ?n = "length (attempted tr')"
  from ih have p: "prefix (attempted tr') (map target rest)"
    and o: "sockets_opened tr' = ?n"
    and y: "\<And>j r. j < ?n \<Longrightarrow> yields_reply h data (upstream env (Suc k + j)) r \<Longrightarrow>
              Suc j = ?n \<and> client_sends tr' = [r]"
    and f: "(\<forall>j<length rest. \<forall>r. \<not> yields_reply h data (upstream env (Suc k + j)) r) \<Longrightarrow>
              client_sends tr' = []"
    unfolding first_reply_only_def by blast+
  have a: "attempted (pre @ tr') = target entry # attempted tr'" by (simp add: att)
  have c1: "prefix (attempted (pre @ tr')) (map target (entry # rest))"
    using p by (simp add: att)
  have c2: "sockets_opened (pre @ tr') = length (attempted (pre @ tr'))"
    using o by (simp add: att opn)
  have c3: "\<forall>j<length (attempted (pre @ tr')). \<forall>r. yields_reply h data (upstream env (k + j)) r \<longrightarrow>
              Suc j = length (attempted (pre @ tr')) \<and> client_sends (pre @ tr') = [r]"
  proof (intro allI impI)
    fix j r
    assume j: "j < length (attempted (pre @ tr'))"
      and yr: "yields_reply h data (upstream env (k + j)) r"
    show "Suc j = length (attempted (pre @ tr')) \<and> client_sends (pre @ tr') = [r]"
    proof (cases j)
      case 0
      with yr no show ?thesis by simp
    next
      case (Suc i)
      with j have "i < ?n" by (simp add: att)
      moreover from yr Suc have "yields_reply h data (upstream env (Suc k + i)) r" by simp
      ultimately have "Suc i = ?n \<and> client_sends tr' = [r]" by (rule y)
      then show ?thesis by (simp add: att Suc snt)
    qed
  qed
  have c4: "(\<forall>j<length (entry # rest). \<forall>r. \<not> yields_reply h data (upstream env (k + j)) r) \<longrightarrow>
              client_sends (pre @ tr') = []"
  proof
    assume all: "\<forall>j<length (entry # rest). \<forall>r. \<not> yields_reply h data (upstream env (k + j)) r"
    have "\<forall>j<length rest. \<forall>r. \<not> yields_reply h data (upstream env (Suc k + j)) r"
    proof (intro allI impI)
      fix j r
      assume "j < length rest"
      then have "Suc j < length (entry # rest)" by simp
      with all have "\<not> yields_reply h data (upstream env (k + Suc j)) r" by blast
      then show "\<not> yields_reply h data (upstream env (Suc k + j)) r" by simp
    qed
    then have "client_sends tr' = []" by (rule f)
    then show "client_sends (pre @ tr') = []" by (simp add: snt)
  qed
  from c1 c2 c3 c4 show ?thesis unfolding first_reply_only_def by blast
qed

lemma first_reply_only_reply:
  assumes yr: "yields_reply h data (upstream env k) r"
    and att: "attempted tr = [target entry]"
    and opn: "sockets_opened tr = 1"
    and snt: "client_sends tr = [r]"
  shows "first_reply_only h env data k (entry # rest) tr"
proof -
  have c1: "prefix (attempted tr) (map target (entry # rest))" by (simp add: att)
  have c2: "sockets_opened tr = length (attempted tr)" by (simp add: att opn)
  have c3: "\<forall>j<length (attempted tr). \<forall>r'. yields_reply h data (upstream env (k + j)) r' \<longrightarrow>
              Suc j = length (attempted tr) \<and> client_sends tr = [r']"
  proof (intro allI impI)
    fix j r'
    assume "j < length (attempted tr)" and y': "yields_reply h data (upstream env (k + j)) r'"
    then have j0: "j = 0" by (simp add: att)
    with y' yr have "r' = r" by (simp add: yields_reply_unique)
    with j0 show "Suc j = length (attempted tr) \<and> client_sends tr = [r']" by (simp add: att snt)
  qed
  have c4: "(\<forall>j<length (entry # rest). \<forall>r. \<not> yields_reply h data (upstream env (k + j)) r) \<longrightarrow>
              client_sends tr = []"
  proof
    assume "\<forall>j<length (entry # rest). \<forall>r. \<not> yields_reply h data (upstream env (k + j)) r"
    then have "0 < length (entry # rest) \<longrightarrow> \<not> yields_reply h data (upstream env (k + 0)) r" by blast
    with yr show "client_sends tr = []" by simp
  qed
  from c1 c2 c3 c4 show ?thesis unfolding first_reply_only_def by blast
qed

lemma tcp_loop_first_reply_only:
  "tcp_forward_loop env data k rs = (res, tr) \<Longrightarrow> first_reply_only TCP env data k rs tr"
proof (induction rs arbitrary: k res tr)
  case Nil
  then show ?case by (simp add: first_reply_only_def)
next
  case (Cons entry rest)
  obtain ip port0 where entry: "entry = (ip, port0)" by (cases entry)
  obtain res' tr' where rec: "tcp_forward_loop env data (Suc k) rest = (res', tr')"
    by (cases "tcp_forward_loop env data (Suc k) rest")
  from Cons.IH [OF rec] have ih: "first_reply_only TCP env data (Suc k) rest tr'" .
  let ?sock = "upstream env k"
  let ?port = "case port0 of None \<Rightarrow> 53 | Some p \<Rightarrow> p"
  let ?pre = "[SocketOpen SOCK_STREAM, SetTimeout, Log INFO (ForwardTo ip ?port), Connect ip ?port]"
  have tgt: "target entry = (ip, ?port)" by (simp add: entry target_def)
  have pre: "attempted ?pre = [target entry]" "sockets_opened ?pre = 1" "client_sends ?pre = []"
    by (simp_all add: tgt)
  note step = Cons.prems [unfolded entry tcp_forward_loop.simps Let_def]
  show ?case
  proof (cases "connect_result ?sock")
    case (Some e)
    then have no: "\<forall>r. \<not> yields_reply TCP data ?sock r" by simp
    show ?thesis
    proof (cases "is_OSError e")
      case True
      with Some step rec have t: "tr = (?pre @ [Log ERROR (ExnMsg e), SockClose]) @ tr'"
        by simp
      show ?thesis unfolding t
        by (rule first_reply_only_continue [OF ih no]) (simp_all add: tgt)
    next
      case False
      with Some step have t: "tr = ?pre" by simp
      show ?thesis
        by (rule first_reply_only_abort [OF no]) (simp_all add: t tgt)
    qed
  next
    case None
    show ?thesis
    proof (cases "length data \<le> 65535")
      case False
      then have no: "\<forall>r. \<not> yields_reply TCP data ?sock r" by simp
      from False None step have t: "tr = ?pre" by (simp add: struct_pack_H_def)
      show ?thesis
        by (rule first_reply_only_abort [OF no]) (simp_all add: t tgt)
    next
      case True
      let ?sz = "[word_of_nat (length data div 256), word_of_nat (length data mod 256)] :: bytes"
      have pk: "struct_pack_H (length data) = Inr ?sz"
        using True by (simp add: struct_pack_H_def)
      show ?thesis
      proof (cases "send_result ?sock")
        case (Some e)
        then have no: "\<forall>r. \<not> yields_reply TCP data ?sock r" by simp
        from Some None pk step have t: "tr = ?pre @ [SockSendall (?sz @ data)]" by simp
        show ?thesis
          by (rule first_reply_only_abort [OF no]) (simp_all add: t tgt)
      next
        case snd_ok: None
        show ?thesis
        proof (cases "recv_result ?sock 8192")
          case (Inl e)
          then have no: "\<forall>r. \<not> yields_reply TCP data ?sock r" by simp
          from Inl snd_ok None pk step
          have t: "tr = ?pre @ [SockSendall (?sz @ data), SockRecv 8192]" by simp
          show ?thesis
            by (rule first_reply_only_abort [OF no]) (simp_all add: t tgt)
        next
          case (Inr r)
          with snd_ok None True have y: "yields_reply TCP data ?sock r" by simp
          from Inr snd_ok None pk step
          have t: "tr = ?pre @ [SockSendall (?sz @ data), SockRecv 8192, Log DEBUG (Reply r), ClientSend r]"
            by simp
          show ?thesis
            by (rule first_reply_only_reply [OF y]) (simp_all add: t tgt)
        qed
      qed
    qed
  qed
qed

lemma udp_loop_first_reply_only:
  "udp_forward_loop env data k rs = (res, tr) \<Longrightarrow> first_reply_only UDP env data k rs tr"
proof (induction rs arbitrary: k res tr)
  case Nil
  then show ?case by (simp add: first_reply_only_def)
next
  case (Cons entry rest)
  obtain ip port0 where entry: "entry = (ip, port0)" by (cases entry)
  obtain res' tr' where rec: "udp_forward_loop env data (Suc k) rest = (res', tr')"
    by (cases "udp_forward_loop env data (Suc k) rest")
  from Cons.IH [OF rec] have ih: "first_reply_only UDP env data (Suc k) rest tr'" .
  let ?sock = "upstream env k"
  let ?port = "case port0 of None \<Rightarrow> 53 | Some p \<Rightarrow> p"
  let ?pre = "[SocketOpen SOCK_DGRAM, SetTimeout, Log INFO (ForwardTo ip ?port), SockSendto data ip ?port]"
  have tgt: "target entry = (ip, ?port)" by (simp add: entry target_def)
  note step = Cons.prems [unfolded entry udp_forward_loop.simps Let_def]
  show ?case
  proof (cases "send_result ?sock")
    case (Some e)
    then have no: "\<forall>r. \<not> yields_reply UDP data ?sock r" by simp
    show ?thesis
    proof (cases "is_OSError e")
      case True
      with Some step rec have t: "tr = (?pre @ [Log DEBUG (ExnMsg e)]) @ tr'" by simp
      show ?thesis unfolding t
        by (rule first_reply_only_continue [OF ih no]) (simp_all add: tgt)
    next
      case False
      with Some step have t: "tr = ?pre" by simp
      show ?thesis
        by (rule first_reply_only_abort [OF no]) (simp_all add: t tgt)
    qed
  next
    case None
    show ?thesis
    proof (cases "recv_result ?sock 8192")
      case (Inl e)
      then have no: "\<forall>r. \<not> yields_reply UDP data ?sock r" by simp
      show ?thesis
      proof (cases "is_OSError e")
        case True
        with Inl None step rec
        have t: "tr = (?pre @ [SockRecv 8192, Log DEBUG (ExnMsg e)]) @ tr'" by simp
        show ?thesis unfolding t
          by (rule first_reply_only_continue [OF ih no]) (simp_all add: tgt)
      next
        case False
        with Inl None step have t: "tr = ?pre @ [SockRecv 8192]" by simp
        show ?thesis
          by (rule first_reply_only_abort [OF no]) (simp_all add: t tgt)
      qed
    next
      case (Inr r)
      with None have y: "yields_reply UDP data ?sock r" by simp
      from Inr None step
      have t: "tr = ?pre @ [SockRecv 8192, Log DEBUG (Reply r), ClientSend r]" by simp
      show ?thesis
        by (rule first_reply_only_reply [OF y]) (simp_all add: t tgt)
    qed
  qed
qed

lemma tcp_connect_error_continues:
  assumes "connect_result (upstream env k) = Some e" and "is_OSError e"
  shows "tcp_forward_loop env data k ((ip, port0) # rest) =
           (fst (tcp_forward_loop env data (Suc k) rest),
            [SocketOpen SOCK_STREAM, SetTimeout,
             Log INFO (ForwardTo ip (snd (target (ip, port0)))),
             Connect ip (snd (target (ip, port0))), Log ERROR (ExnMsg e), SockClose]
            @ snd (tcp_forward_loop env data (Suc k) rest))"
  using assms by (simp add: Let_def target_def split: prod.split)

lemma udp_send_error_continues:
  assumes "send_result (upstream env k) = Some e" and "is_OSError e"
  shows "udp_forward_loop env data k ((ip, port0) # rest) =
           (fst (udp_forward_loop env data (Suc k) rest),
            [SocketOpen SOCK_DGRAM, SetTimeout,
             Log INFO (ForwardTo ip (snd (target (ip, port0)))),
             SockSendto data ip (snd (target (ip, port0))), Log DEBUG (ExnMsg e)]
            @ snd (udp_forward_loop env data (Suc k) rest))"
  using assms by (simp add: Let_def target_def split: prod.split)

lemma udp_recv_error_continues:
  assumes "send_result (upstream env k) = None"
    and "recv_result (upstream env k) 8192 = Inl e" and "is_OSError e"
  shows "udp_forward_loop env data k ((ip, port0) # rest) =
           (fst (udp_forward_loop env data (Suc k) rest),
            [SocketOpen SOCK_DGRAM, SetTimeout,
             Log INFO (ForwardTo ip (snd (target (ip, port0)))),
             SockSendto data ip (snd (target (ip, port0))), SockRecv 8192, Log DEBUG (ExnMsg e)]
            @ snd (udp_forward_loop env data (Suc k) rest))"
  using assms by (simp add: Let_def target_def split: prod.split)

lemma tcp_recv_error_escapes:
  assumes "connect_result (upstream env k) = None" and "length data \<le> 65535"
    and "send_result (upstream env k) = None"
    and "recv_result (upstream env k) 8192 = Inl e"
  shows "fst (tcp_forward_loop env data k ((ip, port0) # rest)) = Some e
         \<and> length (attempted (snd (tcp_forward_loop env data k ((ip, port0) # rest)))) = 1"
  using assms by (simp add: Let_def struct_pack_H_def)

lemma tcp_loop_reaches_reply:
  assumes "i < length rs"
    and "\<forall>j<i. fails_over TCP (upstream env (k + j))"
    and "yields_reply TCP data (upstream env (k + i)) r"
  shows "length (attempted (snd (tcp_forward_loop env data k rs))) = Suc i
         \<and> client_sends (snd (tcp_forward_loop env data k rs)) = [r]"
  using assms
proof (induction rs arbitrary: k i)
  case Nil
  then show ?case by simp
next
  case (Cons entry rest)
  obtain ip port0 where entry: "entry = (ip, port0)" by (cases entry)
  show ?case
  proof (cases i)
    case 0
    with Cons.prems(3) show ?thesis
      by (simp add: entry Let_def struct_pack_H_def)
  next
    case (Suc i')
    from Cons.prems(2) Suc have "fails_over TCP (upstream env (k + 0))" by blast
    then obtain e where e: "connect_result (upstream env k) = Some e" "is_OSError e"
      by (auto split: option.splits)
    have "i' < length rest" using Cons.prems(1) Suc by simp
    moreover have "\<forall>j<i'. fails_over TCP (upstream env (Suc k + j))"
    proof (intro allI impI)
      fix j assume "j < i'"
      then have "Suc j < i" using Suc by simp
      with Cons.prems(2) have "fails_over TCP (upstream env (k + Suc j))" by blast
      then show "fails_over TCP (upstream env (Suc k + j))" by simp
    qed
    moreover have "yields_reply TCP data (upstream env (Suc k + i')) r"
      using Cons.prems(3) Suc by simp
    ultimately have ih: "length (attempted (snd (tcp_forward_loop env data (Suc k) rest))) = Suc i'
         \<and> client_sends (snd (tcp_forward_loop env data (Suc k) rest)) = [r]"
      by (rule Cons.IH)
    show ?thesis
      using ih e Suc by (simp add: entry Let_def split_beta)
  qed
qed

lemma udp_loop_reaches_reply:
  assumes "i < length rs"
    and "\<forall>j<i. fails_over UDP (upstream env (k + j))"
    and "yields_reply UDP data (upstream env (k + i)) r"
  shows "length (attempted (snd (udp_forward_loop env data k rs))) = Suc i
         \<and> client_sends (snd (udp_forward_loop env data k rs)) = [r]"
  using assms
proof (induction rs arbitrary: k i)
  case Nil
  then show ?case by simp
next
  case (Cons entry rest)
  obtain ip port0 where entry: "entry = (ip, port0)" by (cases entry)
  show ?case
  proof (cases i)
    case 0
    with Cons.prems(3) show ?thesis
      by (simp add: entry Let_def)
  next
    case (Suc i')
    from Cons.prems(2) Suc have f0: "fails_over UDP (upstream env (k + 0))" by blast
    have "i' < length rest" using Cons.prems(1) Suc by simp
    moreover have "\<forall>j<i'. fails_over UDP (upstream env (Suc k + j))"
    proof (intro allI impI)
      fix j assume "j < i'"
      then have "Suc j < i" using Suc by simp
      with Cons.prems(2) have "fails_over UDP (upstream env (k + Suc j))" by blast
      then show "fails_over UDP (upstream env (Suc k + j))" by simp
    qed
    moreover have "yields_reply UDP data (upstream env (Suc k + i')) r"
      using Cons.prems(3) Suc by simp
    ultimately have ih: "length (attempted (snd (udp_forward_loop env data (Suc k) rest))) = Suc i'
         \<and> client_sends (snd (udp_forward_loop env data (Suc k) rest)) = [r]"
      by (rule Cons.IH)
    show ?thesis
      using ih f0 Suc by (auto simp: entry Let_def split_beta split: option.splits sum.splits)
  qed
qed

lemma forward_roots_reaches_reply:
  assumes "i < length (roots (config env))"
    and "\<forall>j<i. fails_over h (upstream env j)"
    and "yields_reply h data (upstream env i) r"
  shows "length (attempted (snd (forward_roots h env data))) = Suc i
         \<and> client_sends (snd (forward_roots h env data)) = [r]"
proof (cases h)
  case Base
  with assms(3) show ?thesis by simp
next
  case TCP
  with assms tcp_loop_reaches_reply [of i "roots (config env)" env 0 data r]
  show ?thesis by (simp add: tcp_forward_roots_def)
next
  case UDP
  with assms udp_loop_reaches_reply [of i "roots (config env)" env 0 data r]
  show ?thesis by (simp add: udp_forward_roots_def)
qed

text \<open>
  What both loops do keep of the order of \<open>roots\<close>: the targets tried are a prefix of
  the list, one socket each. A target that was tried and yields a reply is the last one
  tried, and its reply is the one thing sent to the requester; when no target yields a
  reply, nothing is sent to the requester. When the targets before the first one that
  yields a reply all fail over, that target is tried and its reply is relayed.
\<close>

lemma forward_roots_first_reply_only:
  assumes "forward_roots h env data = (res, tr)"
  shows "prefix (attempted tr) (map target (roots (config env)))
         \<and> sockets_opened tr = length (attempted tr)
         \<and> (\<forall>j<length (attempted tr). \<forall>r. yields_reply h data (upstream env j) r \<longrightarrow>
               Suc j = length (attempted tr) \<and> client_sends tr = [r])
         \<and> ((\<forall>j<length (roots (config env)). \<forall>r. \<not> yields_reply h data (upstream env j) r) \<longrightarrow>
               client_sends tr = [])
         \<and> (\<forall>i<length (roots (config env)). \<forall>r.
               (\<forall>j<i. fails_over h (upstream env j)) \<and> yields_reply h data (upstream env i) r \<longrightarrow>
               length (attempted tr) = Suc i \<and> client_sends tr = [r])"
proof -
  have reach: "\<forall>i<length (roots (config env)). \<forall>r.
               (\<forall>j<i. fails_over h (upstream env j)) \<and> yields_reply h data (upstream env i) r \<longrightarrow>
               length (attempted tr) = Suc i \<and> client_sends tr = [r]"
  proof (intro allI impI)
    fix i r
    assume i: "i < length (roots (config env))"
      and "(\<forall>j<i. fails_over h (upstream env j)) \<and> yields_reply h data (upstream env i) r"
    then have "length (attempted (snd (forward_roots h env data))) = Suc i
               \<and> client_sends (snd (forward_roots h env data)) = [r]"
      by (intro forward_roots_reaches_reply) simp_all
    with assms show "length (attempted tr) = Suc i \<and> client_sends tr = [r]" by simp
  qed
  have "first_reply_only h env data 0 (roots (config env)) tr"
  proof (cases h)
    case Base
    with assms show ?thesis by (auto simp: first_reply_only_def)
  next
    case TCP
    with assms show ?thesis by (simp add: tcp_forward_roots_def tcp_loop_first_reply_only)
  next
    case UDP
    with assms show ?thesis by (simp add: udp_forward_roots_def udp_loop_first_reply_only)
  qed
  then have "prefix (attempted tr) (map target (roots (config env)))
         \<and> sockets_opened tr = length (attempted tr)
         \<and> (\<forall>j<length (attempted tr). \<forall>r. yields_reply h data (upstream env j) r \<longrightarrow>
               Suc j = length (attempted tr) \<and> client_sends tr = [r])
         \<and> ((\<forall>j<length (roots (config env)). \<forall>r. \<not> yields_reply h data (upstream env j) r) \<longrightarrow>
               client_sends tr = [])"
    unfolding first_reply_only_def by simp
  with reach show ?thesis by (intro conjI) blast+
qed

lemma forward_roots_first_reply_only_example:
  "forward_roots UDP failover_env [7] =
     (None,
      [SocketOpen SOCK_DGRAM, SetTimeout, Log INFO (ForwardTo ''192.0.2.1'' 53),
       SockSendto [7] ''192.0.2.1'' 53, SockRecv 8192, Log DEBUG (ExnMsg SocketTimeout),
       SocketOpen SOCK_DGRAM, SetTimeout, Log INFO (ForwardTo ''192.0.2.2'' 5353),
       SockSendto [7] ''192.0.2.2'' 5353, SockRecv 8192, Log DEBUG (Reply [0xAB]),
       ClientSend [0xAB]])
   \<and> fails_over UDP (upstream failover_env 0)
   \<and> yields_reply UDP [7] (upstream failover_env 1) [0xAB]
   \<and> client_sends (snd (forward_roots UDP failover_env [7])) = [[0xAB]]
   \<and> length (attempted (snd (forward_roots UDP failover_env [7]))) = 2"
proof -
  let ?tr = "[SocketOpen SOCK_DGRAM, SetTimeout, Log INFO (ForwardTo ''192.0.2.1'' 53),
       SockSendto [7] ''192.0.2.1'' 53, SockRecv 8192, Log DEBUG (ExnMsg SocketTimeout),
       SocketOpen SOCK_DGRAM, SetTimeout, Log INFO (ForwardTo ''192.0.2.2'' 5353),
       SockSendto [7] ''192.0.2.2'' 5353, SockRecv 8192, Log DEBUG (Reply [0xAB]),
       ClientSend [0xAB]]"
  have run: "forward_roots UDP failover_env [7] = (None, ?tr)"
    by (simp add: udp_forward_roots_def failover_env_def quiet_env_def)
  have y: "yields_reply UDP [7] (upstream failover_env 1) [0xAB]"
    by (simp add: failover_env_def)
  have a: "(1::nat) < length (attempted ?tr)" by simp
  from forward_roots_first_reply_only [OF run] y a
  have "Suc 1 = length (attempted ?tr) \<and> client_sends ?tr = [[0xAB]]" by blast
  moreover have "fails_over UDP (upstream failover_env 0)"
    by (simp add: failover_env_def)
  ultimately show ?thesis using run y by simp
qed

text \<open>
  C10. With an empty \<open>roots\<close> list both forwarders return normally with an empty trace:
  no socket is opened and nothing is sent.
\<close>

theorem forward_roots_no_targets:
  assumes "roots (config env) = []"
  shows "tcp_forward_roots env data = (None, []) \<and> udp_forward_roots env data = (None, [])"
  using assms by (simp add: tcp_forward_roots_def udp_forward_roots_def)

theorem forward_roots_no_targets_witness:
  "tcp_forward_roots quiet_env [7] = (None, []) \<and> udp_forward_roots quiet_env [7] = (None, [])"
  using forward_roots_no_targets [of quiet_env "[7]"] by (simp add: quiet_env_def)

text \<open>
  C4, at the input where the code departs from it. The first upstream accepts the TCP
  connection and the query, and its \<open>recv\<close> times out: \<open>socket.timeout\<close> leaves
  \<open>TCPRequestHandler.forward_roots\<close>, nothing is logged by the loop and the second target
  is never tried. \<open>UDPRequestHandler.forward_roots\<close>, on the same upstreams, logs the
  timeout, goes on to the second target and relays its reply.
\<close>

theorem tcp_forward_roots_recv_timeout_escapes:
  "tcp_forward_roots timeout_env [7] =
     (Some SocketTimeout,
      [SocketOpen SOCK_STREAM, SetTimeout, Log INFO (ForwardTo ''192.0.2.1'' 53),
       Connect ''192.0.2.1'' 53, SockSendall [0, 1, 7], SockRecv 8192])
   \<and> udp_forward_roots timeout_env [7] =
     (None,
      [SocketOpen SOCK_DGRAM, SetTimeout, Log INFO (ForwardTo ''192.0.2.1'' 53),
       SockSendto [7] ''192.0.2.1'' 53, SockRecv 8192, Log DEBUG (ExnMsg SocketTimeout),
       SocketOpen SOCK_DGRAM, SetTimeout, Log INFO (ForwardTo ''192.0.2.2'' 53),
       SockSendto [7] ''192.0.2.2'' 53, SockRecv 8192, Log DEBUG (Reply [0xAB]),
       ClientSend [0xAB]])"
  by (simp add: tcp_forward_roots_def udp_forward_roots_def timeout_env_def quiet_env_def
        struct_pack_H_def)

text \<open>
  C5, at the input where the code departs from it. Of the two targets of \<open>timeout_env\<close>
  the second is the first that yields a reply; the first accepts the connection and the
  query and lets the read time out, which is not a failure the TCP loop fails over on.
  \<open>TCPRequestHandler.forward_roots\<close> contacts the first target only and leaves with
  \<open>socket.timeout\<close>: it never stops at the target that yields a reply, and the reply
  is not relayed. \<open>UDPRequestHandler.forward_roots\<close> on the same upstreams stops at the
  second target and relays its reply.
\<close>

theorem tcp_forward_roots_misses_first_reply:
  "roots (config timeout_env) = [(''192.0.2.1'', None), (''192.0.2.2'', None)]
   \<and> recv_result (upstream timeout_env 0) 8192 = Inl SocketTimeout
   \<and> yields_reply TCP [7] (upstream timeout_env 1) [0xAB]
   \<and> yields_reply UDP [7] (upstream timeout_env 1) [0xAB]
   \<and> fst (tcp_forward_roots timeout_env [7]) = Some SocketTimeout
   \<and> snd (tcp_forward_roots timeout_env [7]) =
        [SocketOpen SOCK_STREAM, SetTimeout, Log INFO (ForwardTo ''192.0.2.1'' 53),
         Connect ''192.0.2.1'' 53, SockSendall [0, 1, 7], SockRecv 8192]
   \<and> attempted (snd (tcp_forward_roots timeout_env [7])) = [(''192.0.2.1'', 53)]
   \<and> client_sends (snd (tcp_forward_roots timeout_env [7])) = []
   \<and> attempted (snd (udp_forward_roots timeout_env [7])) = [(''192.0.2.1'', 53), (''192.0.2.2'', 53)]
   \<and> client_sends (snd (udp_forward_roots timeout_env [7])) = [[0xAB]]"
  by (simp add: tcp_forward_roots_def udp_forward_roots_def timeout_env_def quiet_env_def
        struct_pack_H_def)

section \<open>The access filter\<close>

lemma denied_loop_pairs:
  "fst (denied_loop search_ip (map (\<lambda>(ip, ty). Rule ip ty) rules) ret) =
     Inr (ret @ map snd (filter (\<lambda>(ip, ty). ip = search_ip) rules))"
  by (induction rules arbitrary: ret) (auto simp: split_beta)

lemma denied_loop_quiet:
  "client_sends (snd (denied_loop search_ip es ret)) = []
   \<and> printed_exc (snd (denied_loop search_ip es ret)) = []
   \<and> sockets_opened (snd (denied_loop search_ip es ret)) = 0
   \<and> attempted (snd (denied_loop search_ip es ret)) = []"
  by (induction search_ip es ret rule: denied_loop.induct) (auto simp: split_beta)

text \<open>
  C7, as the code has it. For a denylist of well-formed (ip, type) pairs,
  \<open>get_denied_types\<close> returns a list: the types of the rules whose ip equals \<open>search_ip\<close>,
  in the order of the rules and one per matching rule, so a type denied twice appears
  twice. The elements of that list are exactly the types paired with \<open>search_ip\<close>, and
  the list is empty when no rule matches.
\<close>

theorem get_denied_types_list:
  assumes "client_denylist (config env) = map (\<lambda>(ip, ty). Rule ip ty) rules"
  shows "fst (get_denied_types env search_ip) = Inr (map snd (filter (\<lambda>(ip, ty). ip = search_ip) rules))
         \<and> set (map snd (filter (\<lambda>(ip, ty). ip = search_ip) rules)) = {ty. (search_ip, ty) \<in> set rules}"
  using assms denied_loop_pairs [of search_ip rules "[]"]
  by (auto simp: get_denied_types_def image_iff)

theorem get_denied_types_list_counterexample:
  "fst (get_denied_types
          (quiet_env\<lparr>config := \<lparr> db_path = ''dns.db'',
                                 client_denylist = [Rule ''10.0.0.1'' ''A'', Rule ''10.0.0.1'' ''A''],
                                 roots = [] \<rparr>\<rparr>)
          ''10.0.0.1'') = Inr [''A'', ''A'']
   \<and> \<not> distinct [''A'', ''A'']"
  by (simp add: get_denied_types_def)

theorem get_denied_types_list_witness:
  "fst (get_denied_types
          (quiet_env\<lparr>config := \<lparr> db_path = ''dns.db'',
                                 client_denylist = [Rule ''10.0.0.1'' ''A'', Rule ''10.0.0.1'' ''AAAA'',
                                                    Rule ''10.0.0.2'' ''MX''],
                                 roots = [] \<rparr>\<rparr>)
          ''10.0.0.1'') = Inr [''A'', ''AAAA'']
   \<and> fst (get_denied_types
          (quiet_env\<lparr>config := \<lparr> db_path = ''dns.db'',
                                 client_denylist = [Rule ''10.0.0.1'' ''A'', Rule ''10.0.0.1'' ''AAAA'',
                                                    Rule ''10.0.0.2'' ''MX''],
                                 roots = [] \<rparr>\<rparr>)
          ''10.0.0.3'') = Inr []"
  using get_denied_types_list [of "quiet_env\<lparr>config := \<lparr> db_path = ''dns.db'',
                                 client_denylist = [Rule ''10.0.0.1'' ''A'', Rule ''10.0.0.1'' ''AAAA'',
                                                    Rule ''10.0.0.2'' ''MX''],
                                 roots = [] \<rparr>\<rparr>"
          "[(''10.0.0.1'', ''A''), (''10.0.0.1'', ''AAAA''), (''10.0.0.2'', ''MX'')]" "''10.0.0.1''"]
        get_denied_types_list [of "quiet_env\<lparr>config := \<lparr> db_path = ''dns.db'',
                                 client_denylist = [Rule ''10.0.0.1'' ''A'', Rule ''10.0.0.1'' ''AAAA'',
                                                    Rule ''10.0.0.2'' ''MX''],
                                 roots = [] \<rparr>\<rparr>"
          "[(''10.0.0.1'', ''A''), (''10.0.0.1'', ''AAAA''), (''10.0.0.2'', ''MX'')]" "''10.0.0.3''"]
  by simp

section \<open>The dispatcher\<close>

lemma handle_unfold:
  assumes "fst (get_denied_types env (fst (client_address env))) = Inr denied"
  shows "handle h env =
           (None,
            request_line h env @ snd (get_denied_types env (fst (client_address env)))
            @ [Log DEBUG (DenyList denied)] @ snd (try_body h env denied)
            @ (case fst (try_body h env denied) of None \<Rightarrow> [] | Some e \<Rightarrow> [PrintExc e]))"
  using assms
  by (cases "get_denied_types env (fst (client_address env))"; cases "try_body h env denied")
     (simp add: handle_def split: option.split)

lemma handle_denylist_fault:
  assumes "fst (get_denied_types env (fst (client_address env))) = Inl e"
  shows "handle h env = (Some e, request_line h env @ snd (get_denied_types env (fst (client_address env))))"
  using assms
  by (cases "get_denied_types env (fst (client_address env))") (simp add: handle_def)

lemma request_line_quiet [simp]:
  "client_sends (request_line h env) = []" "printed_exc (request_line h env) = []"
  "sockets_opened (request_line h env) = 0" "attempted (request_line h env) = []"
  by (simp_all add: request_line_def)

lemma get_denied_types_quiet [simp]:
  "client_sends (snd (get_denied_types env ip)) = []"
  "printed_exc (snd (get_denied_types env ip)) = []"
  "sockets_opened (snd (get_denied_types env ip)) = 0"
  "attempted (snd (get_denied_types env ip)) = []"
  by (simp_all add: get_denied_types_def denied_loop_quiet)

lemma send_data_trace:
  assumes "h = TCP \<longrightarrow> length d \<le> 65535" and "h \<noteq> Base"
  shows "send_data h env d = (client_send env (on_wire h d), [ClientSend (on_wire h d)])"
  using assms by (cases h) (simp_all add: tcp_send_data_def udp_send_data_def struct_pack_H_def)

lemma send_data_fault:
  "printed_exc (snd (send_data h env d)) = []
   \<and> (\<forall>b\<in>set (client_sends (snd (send_data h env d))). client_send env b = fst (send_data h env d))"
  by (cases h) (simp_all add: tcp_send_data_def udp_send_data_def struct_pack_H_def)

lemma tcp_loop_fault:
  "tcp_forward_loop env data k rs = (res, tr) \<Longrightarrow>
     printed_exc tr = [] \<and> (\<forall>b\<in>set (client_sends tr). client_send env b = res)"
proof (induction rs arbitrary: k res tr)
  case Nil
  then show ?case by simp
next
  case (Cons entry rest)
  obtain ip port0 where entry: "entry = (ip, port0)" by (cases entry)
  obtain res' tr' where rec: "tcp_forward_loop env data (Suc k) rest = (res', tr')"
    by (cases "tcp_forward_loop env data (Suc k) rest")
  from Cons.IH [OF rec]
  have ih: "printed_exc tr' = [] \<and> (\<forall>b\<in>set (client_sends tr'). client_send env b = res')" .
  note step = Cons.prems [unfolded entry tcp_forward_loop.simps Let_def]
  from step ih rec show ?case
    by (auto simp: struct_pack_H_def split: option.splits sum.splits if_splits)
qed

lemma udp_loop_fault:
  "udp_forward_loop env data k rs = (res, tr) \<Longrightarrow>
     printed_exc tr = [] \<and> (\<forall>b\<in>set (client_sends tr). client_send env b = res)"
proof (induction rs arbitrary: k res tr)
  case Nil
  then show ?case by simp
next
  case (Cons entry rest)
  obtain ip port0 where entry: "entry = (ip, port0)" by (cases entry)
  obtain res' tr' where rec: "udp_forward_loop env data (Suc k) rest = (res', tr')"
    by (cases "udp_forward_loop env data (Suc k) rest")
  from Cons.IH [OF rec]
  have ih: "printed_exc tr' = [] \<and> (\<forall>b\<in>set (client_sends tr'). client_send env b = res')" .
  note step = Cons.prems [unfolded entry udp_forward_loop.simps Let_def]
  from step ih rec show ?case
    by (auto split: option.splits sum.splits if_splits)
qed

lemma forward_roots_fault:
  "printed_exc (snd (forward_roots h env q)) = []
   \<and> (\<forall>b\<in>set (client_sends (snd (forward_roots h env q))). client_send env b = fst (forward_roots h env q))"
proof (cases h)
  case Base
  then show ?thesis by simp
next
  case TCP
  then show ?thesis
    using tcp_loop_fault [of env q 0 "roots (config env)"
            "fst (tcp_forward_roots env q)" "snd (tcp_forward_roots env q)"]
    by (simp add: tcp_forward_roots_def)
next
  case UDP
  then show ?thesis
    using udp_loop_fault [of env q 0 "roots (config env)"
            "fst (udp_forward_roots env q)" "snd (udp_forward_roots env q)"]
    by (simp add: udp_forward_roots_def)
qed

lemma try_body_get_fail:
  "get_data h env = Inl e \<Longrightarrow> try_body h env denied = (Some e, [])"
  by (simp add: try_body_def)

lemma try_body_lookup_fail:
  "get_data h env = Inr q \<Longrightarrow>
   dns_response env q (db_path (config env)) (lower (take 3 (class_name h))) denied = Inl e \<Longrightarrow>
   try_body h env denied = (Some e, [])"
  by (simp add: try_body_def)

lemma try_body_lookup:
  assumes "get_data h env = Inr q"
    and "dns_response env q (db_path (config env)) (lower (take 3 (class_name h))) denied = Inr (code, ret)"
  shows "try_body h env denied =
           (if code = 0 then
              (case ret of
                 None \<Rightarrow> (None, [Log DEBUG (RetCode 0)])
               | Some d \<Rightarrow> (fst (send_data h env d),
                             [Log DEBUG (RetCode 0), Log INFO (Text ''Find record in local db'')]
                             @ snd (send_data h env d)))
            else if code = 1 then
              (fst (forward_roots h env q),
               [Log DEBUG (RetCode 1), Log INFO (Text ''Need forwarding'')] @ snd (forward_roots h env q))
            else if code = 2 then (None, [Log DEBUG (RetCode 2), Log INFO (Text ''blocked.'')])
            else (None, [Log DEBUG (RetCode code), Log ERROR (Text ''undefined error code '')]))"
  using assms by (simp add: try_body_def Let_def split_beta split: option.split)

lemma lookup_env_facts:
  "fst (get_denied_types (lookup_env quiet_env code ret) ip) = Inr []"
  "fst (get_denied_types (lookup_env failover_env code ret) ip) = Inr []"
  "tcp_get_data (lookup_env env code ret) = Inr [7]"
  "udp_get_data (lookup_env env code ret) = Inr [7]"
  "dns_response (lookup_env env code ret) q db tag denied = Inr (code, ret)"
  by (simp_all add: lookup_env_def quiet_env_def failover_env_def get_denied_types_def
        tcp_get_data_def udp_get_data_def bytes_strip_def is_space_def be16_def)

text \<open>
  C1, as the code has it. Once \<open>get_data\<close> has returned the query \<open>q\<close> and the local
  lookup has returned \<open>(code, ret)\<close>, \<open>handle\<close> routes on \<open>code\<close> alone. For \<open>(0, d)\<close>
  it sends \<open>d\<close> once, framed for the transport, and opens no upstream socket; on TCP
  this needs \<open>d\<close> to fit the 2-byte length prefix (at most 65535 bytes). For \<open>(1, _)\<close>
  the effects of the cycle are the log lines followed by those of exactly one
  \<open>forward_roots\<close> call on \<open>q\<close>. For \<open>(2, _)\<close> nothing is sent and no socket is opened.
\<close>

theorem handle_routes_on_status:
  assumes h: "h = TCP \<or> h = UDP"
    and dl: "fst (get_denied_types env (fst (client_address env))) = Inr denied"
    and gd: "get_data h env = Inr q"
    and lk: "dns_response env q (db_path (config env)) (lower (take 3 (class_name h))) denied
               = Inr (code, ret)"
  shows "(code = 0 \<and> ret = Some d \<and> (h = TCP \<longrightarrow> length d \<le> 65535) \<longrightarrow>
            client_sends (snd (handle h env)) = [on_wire h d]
            \<and> sockets_opened (snd (handle h env)) = 0 \<and> attempted (snd (handle h env)) = [])
         \<and> (code = 1 \<longrightarrow>
            snd (handle h env) =
              request_line h env @ snd (get_denied_types env (fst (client_address env)))
              @ [Log DEBUG (DenyList denied), Log DEBUG (RetCode 1), Log INFO (Text ''Need forwarding'')]
              @ snd (forward_roots h env q)
              @ (case fst (forward_roots h env q) of None \<Rightarrow> [] | Some e \<Rightarrow> [PrintExc e]))
         \<and> (code = 2 \<longrightarrow>
            client_sends (snd (handle h env)) = []
            \<and> sockets_opened (snd (handle h env)) = 0 \<and> attempted (snd (handle h env)) = [])"
proof (intro conjI impI)
  assume a: "code = 0 \<and> ret = Some d \<and> (h = TCP \<longrightarrow> length d \<le> 65535)"
  with h have sd: "send_data h env d = (client_send env (on_wire h d), [ClientSend (on_wire h d)])"
    by (intro send_data_trace) auto
  from a have tb: "try_body h env denied =
      (fst (send_data h env d),
       [Log DEBUG (RetCode 0), Log INFO (Text ''Find record in local db'')] @ snd (send_data h env d))"
    using try_body_lookup [OF gd lk] by simp
  show "client_sends (snd (handle h env)) = [on_wire h d]"
    by (simp add: handle_unfold [OF dl] tb sd split: option.split)
  show "sockets_opened (snd (handle h env)) = 0"
    by (simp add: handle_unfold [OF dl] tb sd split: option.split)
  show "attempted (snd (handle h env)) = []"
    by (simp add: handle_unfold [OF dl] tb sd split: option.split)
next
  assume "code = 1"
  then have tb: "try_body h env denied =
      (fst (forward_roots h env q),
       [Log DEBUG (RetCode 1), Log INFO (Text ''Need forwarding'')] @ snd (forward_roots h env q))"
    using try_body_lookup [OF gd lk] by simp
  show "snd (handle h env) =
              request_line h env @ snd (get_denied_types env (fst (client_address env)))
              @ [Log DEBUG (DenyList denied), Log DEBUG (RetCode 1), Log INFO (Text ''Need forwarding'')]
              @ snd (forward_roots h env q)
              @ (case fst (forward_roots h env q) of None \<Rightarrow> [] | Some e \<Rightarrow> [PrintExc e])"
    by (simp add: handle_unfold [OF dl] tb)
next
  assume "code = 2"
  then have tb: "try_body h env denied = (None, [Log DEBUG (RetCode 2), Log INFO (Text ''blocked.'')])"
    using try_body_lookup [OF gd lk] by simp
  show "client_sends (snd (handle h env)) = []" by (simp add: handle_unfold [OF dl] tb)
  show "sockets_opened (snd (handle h env)) = 0" by (simp add: handle_unfold [OF dl] tb)
  show "attempted (snd (handle h env)) = []" by (simp add: handle_unfold [OF dl] tb)
qed

theorem handle_routes_on_status_counterexample:
  "get_data TCP (lookup_env quiet_env 0 (Some (replicate 65536 0))) = Inr [7]
   \<and> dns_response (lookup_env quiet_env 0 (Some (replicate 65536 0))) [7] ''dns.db'' ''tcp'' []
        = Inr (0, Some (replicate 65536 0))
   \<and> replicate 65536 (0 :: byte) \<noteq> []
   \<and> client_sends (snd (handle TCP (lookup_env quiet_env 0 (Some (replicate 65536 0))))) = []
   \<and> printed_exc (snd (handle TCP (lookup_env quiet_env 0 (Some (replicate 65536 0))))) = [StructError]"
proof -
  let ?env = "lookup_env quiet_env 0 (Some (replicate 65536 0))"
  have ne: "replicate 65536 (0 :: byte) \<noteq> []"
    using length_replicate [of 65536 "0 :: byte"] by (metis list.size(3) zero_neq_numeral)
  have sd: "tcp_send_data ?env (replicate 65536 0) = (Some StructError, [])"
    by (simp add: tcp_send_data_def struct_pack_H_def)
  have dl: "fst (get_denied_types ?env (fst (client_address ?env))) = Inr []"
    by (rule lookup_env_facts)
  have tb: "try_body TCP ?env [] = (Some StructError, [Log DEBUG (RetCode 0), Log INFO (Text ''Find record in local db'')])"
    using try_body_lookup [of TCP ?env "[7]" "[]" 0 "Some (replicate 65536 0)"]
    by (simp add: lookup_env_facts sd)
  show ?thesis
    using ne by (simp add: lookup_env_facts handle_unfold [OF dl] tb)
qed

theorem handle_routes_on_status_witness:
  "client_sends (snd (handle TCP (lookup_env quiet_env 0 (Some [9, 9])))) = [[0, 2, 9, 9]]
   \<and> client_sends (snd (handle UDP (lookup_env quiet_env 0 (Some [9, 9])))) = [[9, 9]]
   \<and> sockets_opened (snd (handle UDP (lookup_env quiet_env 0 (Some [9, 9])))) = 0
   \<and> client_sends (snd (handle UDP (lookup_env failover_env 1 None))) = [[0xAB]]
   \<and> client_sends (snd (handle TCP (lookup_env failover_env 2 None))) = []
   \<and> sockets_opened (snd (handle TCP (lookup_env failover_env 2 None))) = 0"
proof -
  have f: "udp_forward_roots (lookup_env failover_env 1 None) [7] =
     (None,
      [SocketOpen SOCK_DGRAM, SetTimeout, Log INFO (ForwardTo ''192.0.2.1'' 53),
       SockSendto [7] ''192.0.2.1'' 53, SockRecv 8192, Log DEBUG (ExnMsg SocketTimeout),
       SocketOpen SOCK_DGRAM, SetTimeout, Log INFO (ForwardTo ''192.0.2.2'' 5353),
       SockSendto [7] ''192.0.2.2'' 5353, SockRecv 8192, Log DEBUG (Reply [0xAB]),
       ClientSend [0xAB]])"
    by (simp add: udp_forward_roots_def lookup_env_def failover_env_def quiet_env_def)
  show ?thesis
    using handle_routes_on_status [of TCP "lookup_env quiet_env 0 (Some [9, 9])" "[]" "[7]" 0 "Some [9, 9]" "[9, 9]"]
          handle_routes_on_status [of UDP "lookup_env quiet_env 0 (Some [9, 9])" "[]" "[7]" 0 "Some [9, 9]" "[9, 9]"]
          handle_routes_on_status [of UDP "lookup_env failover_env 1 None" "[]" "[7]" 1 None "[]"]
          handle_routes_on_status [of TCP "lookup_env failover_env 2 None" "[]" "[7]" 2 None "[]"]
    by (simp add: lookup_env_facts f)
qed

text \<open>
  C6, as the code has it. \<open>handle\<close> tests \<open>retdata is not None\<close>. With status 0 and no
  response bytes (\<open>None\<close>) the cycle ends after the log lines: nothing is sent and no
  exception is printed. With status 0 and the empty bytes \<open>b""\<close>, \<open>send_data\<close> is
  called as for any answer: TCP sends the 2-byte frame 00 00, UDP sends an empty
  datagram.
\<close>

theorem handle_empty_answer:
  assumes h: "h = TCP \<or> h = UDP"
    and dl: "fst (get_denied_types env (fst (client_address env))) = Inr denied"
    and gd: "get_data h env = Inr q"
    and lk: "dns_response env q (db_path (config env)) (lower (take 3 (class_name h))) denied
               = Inr (0, ret)"
  shows "(ret = None \<longrightarrow>
            handle h env =
              (None,
               request_line h env @ snd (get_denied_types env (fst (client_address env)))
               @ [Log DEBUG (DenyList denied), Log DEBUG (RetCode 0)])
            \<and> client_sends (snd (handle h env)) = []
            \<and> printed_exc (snd (handle h env)) = [])
         \<and> (ret = Some [] \<longrightarrow>
            fst (handle h env) = None
            \<and> client_sends (snd (handle h env)) = [on_wire h []]
            \<and> on_wire TCP [] = [0, 0] \<and> on_wire UDP [] = [])"
proof (intro conjI impI)
  assume "ret = None"
  then have tb: "try_body h env denied = (None, [Log DEBUG (RetCode 0)])"
    using try_body_lookup [OF gd lk] by simp
  show "handle h env =
              (None,
               request_line h env @ snd (get_denied_types env (fst (client_address env)))
               @ [Log DEBUG (DenyList denied), Log DEBUG (RetCode 0)])"
    by (simp add: handle_unfold [OF dl] tb)
  show "client_sends (snd (handle h env)) = []" by (simp add: handle_unfold [OF dl] tb)
  show "printed_exc (snd (handle h env)) = []" by (simp add: handle_unfold [OF dl] tb)
next
  assume r: "ret = Some []"
  from h have sd: "send_data h env [] = (client_send env (on_wire h []), [ClientSend (on_wire h [])])"
    by (intro send_data_trace) auto
  from r have tb: "try_body h env denied =
      (fst (send_data h env []),
       [Log DEBUG (RetCode 0), Log INFO (Text ''Find record in local db'')] @ snd (send_data h env []))"
    using try_body_lookup [OF gd lk] by simp
  show "fst (handle h env) = None" by (simp add: handle_unfold [OF dl])
  show "client_sends (snd (handle h env)) = [on_wire h []]"
    by (simp add: handle_unfold [OF dl] tb sd split: option.split)
  show "on_wire TCP [] = [0, 0]" by simp
  show "on_wire UDP [] = []" by simp
qed

theorem handle_empty_answer_counterexample:
  "tcp_get_data (lookup_env quiet_env 0 (Some [])) = Inr [7]
   \<and> dns_response (lookup_env quiet_env 0 (Some [])) [7] ''dns.db'' ''tcp'' [] = Inr (0, Some [])
   \<and> client_sends (snd (handle TCP (lookup_env quiet_env 0 (Some [])))) = [[0, 0]]
   \<and> client_sends (snd (handle UDP (lookup_env quiet_env 0 (Some [])))) = [[]]"
proof -
  let ?env = "lookup_env quiet_env 0 (Some [])"
  have dl: "fst (get_denied_types ?env (fst (client_address ?env))) = Inr []"
    by (rule lookup_env_facts)
  have t: "try_body TCP ?env [] =
      (client_send ?env [0, 0],
       [Log DEBUG (RetCode 0), Log INFO (Text ''Find record in local db''), ClientSend [0, 0]])"
    using try_body_lookup [of TCP ?env "[7]" "[]" 0 "Some []"]
    by (simp add: lookup_env_facts tcp_send_data_def struct_pack_H_def)
  have u: "try_body UDP ?env [] =
      (client_send ?env [],
       [Log DEBUG (RetCode 0), Log INFO (Text ''Find record in local db''), ClientSend []])"
    using try_body_lookup [of UDP ?env "[7]" "[]" 0 "Some []"]
    by (simp add: lookup_env_facts udp_send_data_def)
  show ?thesis
    by (simp add: lookup_env_facts handle_unfold [OF dl] t u split: option.split)
qed

theorem handle_empty_answer_witness:
  "client_sends (snd (handle TCP (lookup_env quiet_env 0 None))) = []
   \<and> printed_exc (snd (handle TCP (lookup_env quiet_env 0 None))) = []
   \<and> fst (handle UDP (lookup_env quiet_env 0 None)) = None
   \<and> client_sends (snd (handle TCP (lookup_env quiet_env 0 (Some [])))) = [[0, 0]]
   \<and> client_sends (snd (handle UDP (lookup_env quiet_env 0 (Some [])))) = [[]]"
  using handle_empty_answer [of TCP "lookup_env quiet_env 0 None" "[]" "[7]" None]
        handle_empty_answer [of UDP "lookup_env quiet_env 0 None" "[]" "[7]" None]
        handle_empty_answer [of TCP "lookup_env quiet_env 0 (Some [])" "[]" "[7]" "Some []"]
        handle_empty_answer [of UDP "lookup_env quiet_env 0 (Some [])" "[]" "[7]" "Some []"]
  by (simp add: lookup_env_facts)

text \<open>
  C8, as the code has it. \<open>get_denied_types\<close> runs before the \<open>try\<close> of \<open>handle\<close>; when
  it returns, \<open>handle\<close> returns normally whatever happens next. An exception raised by
  \<open>get_data\<close>, by the local lookup, by \<open>send_data\<close> or by \<open>forward_roots\<close> is printed once
  by \<open>traceback.print_exc\<close> and the cycle ends; no send to the requester has completed
  (the only send in the trace, if any, is the call that raised). An exception of
  \<open>get_denied_types\<close> itself is not caught: it leaves \<open>handle\<close> unprinted.
\<close>

theorem handle_catches_faults_of_try:
  assumes dl: "fst (get_denied_types env (fst (client_address env))) = Inr denied"
  shows "fst (handle h env) = None
         \<and> (get_data h env = Inl e \<longrightarrow>
              printed_exc (snd (handle h env)) = [e] \<and> client_sends (snd (handle h env)) = [])
         \<and> (get_data h env = Inr q
              \<and> dns_response env q (db_path (config env)) (lower (take 3 (class_name h))) denied = Inl e \<longrightarrow>
              printed_exc (snd (handle h env)) = [e] \<and> client_sends (snd (handle h env)) = [])
         \<and> (get_data h env = Inr q
              \<and> dns_response env q (db_path (config env)) (lower (take 3 (class_name h))) denied
                  = Inr (0, Some d)
              \<and> fst (send_data h env d) = Some e \<longrightarrow>
              printed_exc (snd (handle h env)) = [e]
              \<and> (\<forall>b\<in>set (client_sends (snd (handle h env))). client_send env b = Some e))
         \<and> (get_data h env = Inr q
              \<and> dns_response env q (db_path (config env)) (lower (take 3 (class_name h))) denied
                  = Inr (1, ret)
              \<and> fst (forward_roots h env q) = Some e \<longrightarrow>
              printed_exc (snd (handle h env)) = [e]
              \<and> (\<forall>b\<in>set (client_sends (snd (handle h env))). client_send env b = Some e))"
proof (intro conjI impI)
  show "fst (handle h env) = None" by (simp add: handle_unfold [OF dl])
next
  assume "get_data h env = Inl e"
  then have tb: "try_body h env denied = (Some e, [])" by (rule try_body_get_fail)
  show "printed_exc (snd (handle h env)) = [e]" by (simp add: handle_unfold [OF dl] tb)
  show "client_sends (snd (handle h env)) = []" by (simp add: handle_unfold [OF dl] tb)
next
  assume "get_data h env = Inr q
    \<and> dns_response env q (db_path (config env)) (lower (take 3 (class_name h))) denied = Inl e"
  then have tb: "try_body h env denied = (Some e, [])" by (simp add: try_body_lookup_fail)
  show "printed_exc (snd (handle h env)) = [e]" by (simp add: handle_unfold [OF dl] tb)
  show "client_sends (snd (handle h env)) = []" by (simp add: handle_unfold [OF dl] tb)
next
  assume a: "get_data h env = Inr q
    \<and> dns_response env q (db_path (config env)) (lower (take 3 (class_name h))) denied = Inr (0, Some d)
    \<and> fst (send_data h env d) = Some e"
  then have tb: "try_body h env denied =
      (Some e, [Log DEBUG (RetCode 0), Log INFO (Text ''Find record in local db'')] @ snd (send_data h env d))"
    using try_body_lookup [of h env q denied 0 "Some d"] by simp
  from send_data_fault [of h env d] a
  have sf: "printed_exc (snd (send_data h env d)) = []"
    "\<forall>b\<in>set (client_sends (snd (send_data h env d))). client_send env b = Some e"
    by simp_all
  show "printed_exc (snd (handle h env)) = [e]" by (simp add: handle_unfold [OF dl] tb sf)
  show "\<forall>b\<in>set (client_sends (snd (handle h env))). client_send env b = Some e"
    using sf(2) by (simp add: handle_unfold [OF dl] tb)
next
  assume a: "get_data h env = Inr q
    \<and> dns_response env q (db_path (config env)) (lower (take 3 (class_name h))) denied = Inr (1, ret)
    \<and> fst (forward_roots h env q) = Some e"
  then have tb: "try_body h env denied =
      (Some e, [Log DEBUG (RetCode 1), Log INFO (Text ''Need forwarding'')] @ snd (forward_roots h env q))"
    using try_body_lookup [of h env q denied 1 ret] by simp
  from forward_roots_fault [of h env q] a
  have ff: "printed_exc (snd (forward_roots h env q)) = []"
    "\<forall>b\<in>set (client_sends (snd (forward_roots h env q))). client_send env b = Some e"
    by simp_all
  show "printed_exc (snd (handle h env)) = [e]" by (simp add: handle_unfold [OF dl] tb ff)
  show "\<forall>b\<in>set (client_sends (snd (handle h env))). client_send env b = Some e"
    using ff(2) by (simp add: handle_unfold [OF dl] tb)
qed

theorem handle_catches_faults_of_try_counterexample:
  "fst (get_denied_types
          (quiet_env\<lparr>config := \<lparr> db_path = ''dns.db'', client_denylist = [NotAPair], roots = [] \<rparr>\<rparr>)
          ''198.51.100.7'') = Inl UnpackError
   \<and> fst (handle TCP
          (quiet_env\<lparr>config := \<lparr> db_path = ''dns.db'', client_denylist = [NotAPair], roots = [] \<rparr>\<rparr>))
       = Some UnpackError
   \<and> printed_exc (snd (handle TCP
          (quiet_env\<lparr>config := \<lparr> db_path = ''dns.db'', client_denylist = [NotAPair], roots = [] \<rparr>\<rparr>)))
       = []"
proof -
  let ?env = "quiet_env\<lparr>config := \<lparr> db_path = ''dns.db'', client_denylist = [NotAPair], roots = [] \<rparr>\<rparr>"
  have a: "client_address ?env = (''198.51.100.7'', 40000)" by (simp add: quiet_env_def)
  have g: "fst (get_denied_types ?env (fst (client_address ?env))) = Inl UnpackError"
    by (simp add: get_denied_types_def)
  show ?thesis
    using g by (simp add: a handle_denylist_fault [OF g])
qed

theorem handle_catches_faults_of_try_witness:
  "fst (handle TCP quiet_env) = None
   \<and> printed_exc (snd (handle TCP quiet_env)) = [StructError]
   \<and> client_sends (snd (handle TCP quiet_env)) = []
   \<and> fst (handle TCP (lookup_env timeout_env 1 None)) = None
   \<and> printed_exc (snd (handle TCP (lookup_env timeout_env 1 None))) = [SocketTimeout]"
proof -
  have d1: "fst (get_denied_types quiet_env (fst (client_address quiet_env))) = Inr []"
    by (simp add: get_denied_types_def quiet_env_def)
  have g1: "tcp_get_data quiet_env = Inl StructError"
    by (simp add: tcp_get_data_def quiet_env_def bytes_strip_def)
  have d2: "fst (get_denied_types (lookup_env timeout_env 1 None)
                  (fst (client_address (lookup_env timeout_env 1 None)))) = Inr []"
    by (simp add: get_denied_types_def lookup_env_def timeout_env_def)
  have f2: "fst (tcp_forward_roots (lookup_env timeout_env 1 None) [7]) = Some SocketTimeout"
    by (simp add: tcp_forward_roots_def lookup_env_def timeout_env_def struct_pack_H_def)
  show ?thesis
    using handle_catches_faults_of_try [OF d1, of TCP StructError "[]" "[]" None]
          handle_catches_faults_of_try [OF d2, of TCP SocketTimeout "[7]" "[]" None]
    by (simp add: g1 f2 lookup_env_facts)
qed

end
